theory Spec2Isabelle
  imports Complex_Main "HOL-Library.Multiset"
begin

section \<open>The NAS collector of nifcloud\_nas\_exporter (collector/nas.go)\<close>

text \<open>
  The collector asks the vendor's statistics API for each of eleven fixed metrics, keeps
  the value of the latest data point of each response and sends it, with a duration and a
  success gauge, on the channel of the Prometheus registry.

  The embedding follows collector/nas.go function by function. What the Go standard
  library, the Prometheus client and the vendor's SDK do is not part of the repository:
  their operations are the fields of an environment record \<open>env\<close>, and every theorem
  holds for every environment. The readings of the wall clock are inputs as well.
\<close>

subsection \<open>Values of the libraries\<close>

text \<open>
  A \<open>*string\<close> is a \<open>string option\<close>, \<open>nil\<close> being \<open>None\<close>
  (\<open>nifcloud.String\<close>, \<open>nifcloud.StringValue\<close>).
\<close>

definition String :: "string \<Rightarrow> string option" where
  "String s = Some s"

definition StringValue :: "string option \<Rightarrow> string" where
  "StringValue p = (case p of None \<Rightarrow> [] | Some s \<Rightarrow> s)"

text \<open>
  A \<open>time.Time\<close> is an instant, counted in nanoseconds from the zero Time
  (January 1 of year 1, 00:00:00 UTC), together with the location it is shown in.
  \<open>Before\<close> compares instants only. A \<open>time.Duration\<close> is a number of nanoseconds.
  Both are integers without bounds: the one computation of the collector, \<open>now\<close> less
  180 seconds, stays far from the bounds of \<open>int64\<close>.
\<close>

datatype Location = UTC | Local | FixedZone int

record Time =
  nsec :: int
  loc :: Location

type_synonym Duration = int

definition Second :: Duration where
  "Second = 1000000000"

definition zeroTime :: Time where
  "zeroTime = \<lparr>nsec = 0, loc = UTC\<rparr>"

definition In :: "Time \<Rightarrow> Location \<Rightarrow> Time" where
  "In t l = t\<lparr>loc := l\<rparr>"

definition Add :: "Time \<Rightarrow> Duration \<Rightarrow> Time" where
  "Add t d = t\<lparr>nsec := nsec t + d\<rparr>"

definition Before :: "Time \<Rightarrow> Time \<Rightarrow> bool" where
  "Before t u = (nsec t < nsec u)"

definition RFC3339 :: string where
  "RFC3339 = ''2006-01-02T15:04:05Z07:00''"

text \<open>\<open>url.Values\<close> is a map from a key to a list of values; \<open>Set\<close> replaces the list.\<close>

type_synonym Values = "string \<rightharpoonup> string list"

definition Values_Set :: "Values \<Rightarrow> string \<Rightarrow> string \<Rightarrow> Values" where
  "Values_Set v key val = v(key \<mapsto> [val])"

subsection \<open>The SDK's request and response\<close>

record RequestDimensionsStruct =
  DimName :: "string option"
  DimValue :: "string option"

record GetMetricStatisticsInput =
  Dimensions :: "RequestDimensionsStruct list"
  MetricName :: "string option"

record Client =
  accessKeyID :: string
  secretAccessKey :: string
  clientRegion :: string

record Request =
  Operation_Name :: string
  Metadata_APIVersion :: string
  Config :: Client
  Params :: GetMetricStatisticsInput
  BufferBody :: string

record Datapoint =
  Timestamp :: "string option"
  Sum :: "string option"

subsection \<open>Descriptors and samples of the Prometheus client\<close>

record Desc =
  fqName :: string
  helpText :: string
  variableLabels :: "string list"

definition NewDesc :: "string \<Rightarrow> string \<Rightarrow> string list \<Rightarrow> Desc" where
  "NewDesc fq h ls = \<lparr>fqName = fq, helpText = h, variableLabels = ls\<rparr>"

definition BuildFQName :: "string \<Rightarrow> string \<Rightarrow> string \<Rightarrow> string" where
  "BuildFQName ns subsystem name =
     (if name = [] then []
      else if ns \<noteq> [] \<and> subsystem \<noteq> [] then ns @ ''_'' @ subsystem @ ''_'' @ name
      else if ns \<noteq> [] then ns @ ''_'' @ name
      else if subsystem \<noteq> [] then subsystem @ ''_'' @ name
      else name)"

datatype ValueType = CounterValue | GaugeValue | UntypedValue

text \<open>
  A constant metric, as \<open>prometheus.MustNewConstMetric\<close> builds it. The type \<open>'f\<close>
  stands for \<open>float64\<close>: the collector never computes with these values, it only
  passes them on, and uses the two constants 0 and 1. The call panics when the number of
  label values is not the number of labels of the descriptor; the collector calls it
  with one label value for its own two descriptors and with two for the descriptors of
  the metrics, which have the two labels of \<open>label\<close>, so the call is taken as total.
\<close>

record 'f ConstMetric =
  desc :: Desc
  valType :: ValueType
  val :: 'f
  labelValues :: "string list"

definition MustNewConstMetric :: "Desc \<Rightarrow> ValueType \<Rightarrow> 'f \<Rightarrow> string list \<Rightarrow> 'f ConstMetric" where
  "MustNewConstMetric d vt v lvs = \<lparr>desc = d, valType = vt, val = v, labelValues = lvs\<rparr>"

subsection \<open>The environment\<close>

text \<open>
  The operations of the SDK and of the standard library that \<open>scrape\<close> and \<open>collect\<close>
  call. An error result carries the text of the error.
  \<^item> \<open>Build\<close>: \<open>request.Build()\<close>, \<open>None\<close> when it returns \<open>nil\<close>;
  \<^item> \<open>queryutil_Parse\<close>: \<open>queryutil.Parse(body, params, false)\<close>, giving the body filled in;
  \<^item> \<open>Encode\<close>: \<open>url.Values.Encode\<close>;
  \<^item> \<open>Send\<close>: \<open>request.Send(ctx)\<close>, giving the data points of the response;
  \<^item> \<open>Format\<close>: \<open>t.Format(layout)\<close>;
  \<^item> \<open>time_Parse\<close>: \<open>time.Parse(layout, value)\<close>;
  \<^item> \<open>ParseFloat\<close>: \<open>strconv.ParseFloat(s, 64)\<close>;
  \<^item> \<open>Seconds\<close>: \<open>d.Seconds()\<close>.
\<close>

record 'f env =
  OperationName :: string
  APIVersion :: string
  Build :: "Request \<Rightarrow> string option"
  queryutil_Parse :: "Values \<Rightarrow> GetMetricStatisticsInput \<Rightarrow> string + Values"
  Encode :: "Values \<Rightarrow> string"
  Send :: "Request \<Rightarrow> string + Datapoint list"
  Format :: "Time \<Rightarrow> string \<Rightarrow> string"
  time_Parse :: "string \<Rightarrow> string \<Rightarrow> string + Time"
  ParseFloat :: "string \<Rightarrow> string + 'f"
  Seconds :: "Duration \<Rightarrow> 'f"

definition GetMetricStatisticsRequest ::
  "'f env \<Rightarrow> Client \<Rightarrow> GetMetricStatisticsInput \<Rightarrow> Request" where
  "GetMetricStatisticsRequest E c input =
     \<lparr>Operation_Name = OperationName E, Metadata_APIVersion = APIVersion E,
      Config = c, Params = input, BufferBody = []\<rparr>"

definition SetBufferBody :: "Request \<Rightarrow> string \<Rightarrow> Request" where
  "SetBufferBody r b = r\<lparr>BufferBody := b\<rparr>"

subsection \<open>Constants and variables of the package\<close>

definition namespace :: string where
  "namespace = ''nifcloud_nas''"

definition timestampLayout :: string where
  "timestampLayout = ''2006-01-02 15:04:05''"

definition scrapeDurationDesc :: Desc where
  "scrapeDurationDesc =
     NewDesc (BuildFQName namespace ''scrape'' ''collector_duration_seconds'')
       ''nifcloud_nas_exporter: Duration of a collector scrape.''
       [''metric_name'']"

definition scrapeSuccessDesc :: Desc where
  "scrapeSuccessDesc =
     NewDesc (BuildFQName namespace ''scrape'' ''collector_success'')
       ''nifcloud_nas_exporter: Whether a collector succeeded.''
       [''metric_name'']"

definition label :: "string list" where
  "label = [''instance'', ''region'']"

record Metric =
  Name :: string
  Desc :: Desc

definition metrics :: "Metric list" where
  "metrics =
    [\<lparr>Name = ''FreeStorageSpace'',
      Desc = NewDesc (BuildFQName namespace [] ''free_storage_space'')
        ''The amount of available storage space. Units: Bytes'' label\<rparr>,
     \<lparr>Name = ''UsedStorageSpace'',
      Desc = NewDesc (BuildFQName namespace [] ''used_storage_space'')
        ''The amount of used storage space. Units: Bytes'' label\<rparr>,
     \<lparr>Name = ''ReadIOPS'',
      Desc = NewDesc (BuildFQName namespace [] ''read_iops'')
        ''The average number of disk read I/O operations per second. Units: Count/Second'' label\<rparr>,
     \<lparr>Name = ''WriteIOPS'',
      Desc = NewDesc (BuildFQName namespace [] ''write_iops'')
        ''The average number of disk write I/O operations per second. Units: Count/Second'' label\<rparr>,
     \<lparr>Name = ''ReadThroughput'',
      Desc = NewDesc (BuildFQName namespace [] ''read_throughput'')
        ''The average number of bytes read from disk per second. Units: Bytes/Second'' label\<rparr>,
     \<lparr>Name = ''WriteThroughput'',
      Desc = NewDesc (BuildFQName namespace [] ''write_throughput'')
        ''The average number of bytes written to disk per second. Units: Bytes/Second'' label\<rparr>,
     \<lparr>Name = ''ActiveConnections'',
      Desc = NewDesc (BuildFQName namespace [] ''active_connections'')
        ''The active connection counts. Units: Count'' label\<rparr>,
     \<lparr>Name = ''GlobalReadTraffic'',
      Desc = NewDesc (BuildFQName namespace [] ''global_read_traffic'')
        ''The incoming (Receive) network traffic from global on the NAS instance. Units: Bytes/second'' label\<rparr>,
     \<lparr>Name = ''PrivateReadTraffic'',
      Desc = NewDesc (BuildFQName namespace [] ''private_read_traffic'')
        ''The incoming (Receive) network traffic from private on the NAS instance. Units: Bytes/second'' label\<rparr>,
     \<lparr>Name = ''GlobalWriteTraffic'',
      Desc = NewDesc (BuildFQName namespace [] ''global_write_traffic'')
        ''The outgoing (Transmit) network traffic to global on the NAS instance. Units: Bytes/second'' label\<rparr>,
     \<lparr>Name = ''PrivateWriteTraffic'',
      Desc = NewDesc (BuildFQName namespace [] ''private_write_traffic'')
        ''The outgoing (Transmit) network traffic to private on the NAS instance. Units: Bytes/second'' label\<rparr>]"

text \<open>
  The field \<open>metrics\<close> of the collector is \<open>nc_metrics\<close> here, the package
  variable keeps the name \<open>metrics\<close>.
\<close>

record NASCollector =
  client :: Client
  nc_metrics :: "Metric list"
  nasInstanceIdentifier :: string
  region :: string

definition NewNASCollector :: "string \<Rightarrow> string \<Rightarrow> string \<Rightarrow> string \<Rightarrow> NASCollector" where
  "NewNASCollector nasInstanceIdentifier' accessKeyID' secretAccessKey' region' =
     \<lparr>client = \<lparr>accessKeyID = accessKeyID', secretAccessKey = secretAccessKey',
                 clientRegion = region'\<rparr>,
      nc_metrics = metrics,
      nasInstanceIdentifier = nasInstanceIdentifier',
      region = region'\<rparr>"

definition Describe :: "NASCollector \<Rightarrow> Desc list" where
  "Describe n = map Desc (nc_metrics n) @ [scrapeDurationDesc, scrapeSuccessDesc]"

subsection \<open>scrape\<close>

text \<open>The errors \<open>scrape\<close> returns, one constructor for each \<open>return\<close> of an error.\<close>

datatype error =
    FailedBuildingRequest string
  | FailedEncodingRequest string
  | SendFailed string
  | FetchedNoDatapoints
  | CouldNotParseTimestamp string string
  | CouldNotParseSum string string

text \<open>
  The loop over the data points (lines 226 to 243), started with \<open>latest\<close> the zero Time
  and \<open>latestVal\<close> 0. A data point whose timestamp is before \<open>latest\<close> is skipped
  before its sum is parsed.
\<close>

fun scan :: "'f env \<Rightarrow> Time \<Rightarrow> 'f \<Rightarrow> Datapoint list \<Rightarrow> error + 'f" where
  "scan E latest latestVal [] = Inr latestVal"
| "scan E latest latestVal (dp # dps) =
     (case time_Parse E RFC3339 (StringValue (Timestamp dp)) of
        Inl err \<Rightarrow> Inl (CouldNotParseTimestamp (StringValue (Timestamp dp)) err)
      | Inr timestamp \<Rightarrow>
          if Before timestamp latest then scan E latest latestVal dps
          else (case ParseFloat E (StringValue (Sum dp)) of
                  Inl err \<Rightarrow> Inl (CouldNotParseSum (StringValue (Sum dp)) err)
                | Inr v \<Rightarrow> scan E timestamp v dps))"

text \<open>
  Lines 192 to 214: the request with its body. \<open>now\<close> is the reading of \<open>time.Now()\<close>.
\<close>

definition query_body :: "'f env \<Rightarrow> Time \<Rightarrow> Request \<Rightarrow> error + Values" where
  "query_body E now request =
     (let body = [''Action'' \<mapsto> [Operation_Name request],
                  ''Version'' \<mapsto> [Metadata_APIVersion request]]
      in case queryutil_Parse E body (Params request) of
           Inl err \<Rightarrow> Inl (FailedEncodingRequest err)
         | Inr body \<Rightarrow>
             Inr (Values_Set
                   (Values_Set body ''StartTime''
                      (Format E (Add now (180 * Second * (- 1))) timestampLayout))
                   ''EndTime'' (Format E now timestampLayout)))"

definition prepare :: "'f env \<Rightarrow> NASCollector \<Rightarrow> Time \<Rightarrow> Metric \<Rightarrow> error + Request" where
  "prepare E n now0 metric =
     (let now = In now0 UTC;
          request = GetMetricStatisticsRequest E (client n)
            \<lparr>Dimensions = [\<lparr>DimName = String ''NASInstanceIdentifier'',
                             DimValue = String (nasInstanceIdentifier n)\<rparr>],
             MetricName = String (Name metric)\<rparr>
      in case Build E request of
           Some err \<Rightarrow> Inl (FailedBuildingRequest err)
         | None \<Rightarrow>
             (case query_body E now request of
                Inl e \<Rightarrow> Inl e
              | Inr body \<Rightarrow> Inr (SetBufferBody request (Encode E body))))"

text \<open>
  \<open>scrape\<close> returns what it has sent on the channel and its error (\<open>None\<close> for \<open>nil\<close>).
\<close>

definition scrape ::
  "('f::zero) env \<Rightarrow> NASCollector \<Rightarrow> Time \<Rightarrow> Metric \<Rightarrow> 'f ConstMetric list \<times> error option" where
  "scrape E n now0 metric =
     (case prepare E n now0 metric of
        Inl e \<Rightarrow> ([], Some e)
      | Inr request \<Rightarrow>
          (case Send E request of
             Inl err \<Rightarrow> ([], Some (SendFailed err))
           | Inr datapoints \<Rightarrow>
               if length datapoints = 0 then ([], Some FetchedNoDatapoints)
               else (case scan E zeroTime 0 datapoints of
                       Inl e \<Rightarrow> ([], Some e)
                     | Inr latestVal \<Rightarrow>
                         ([MustNewConstMetric (Desc metric) GaugeValue latestVal
                             [nasInstanceIdentifier n, region n]], None))))"

subsection \<open>collect and Collect\<close>

text \<open>
  The readings of the clock in one call of \<open>collect\<close>: \<open>now\<close> is what \<open>time.Now()\<close>
  gives in \<open>scrape\<close>, \<open>elapsed\<close> is \<open>time.Since(begin)\<close>.
\<close>

record Clock =
  now :: Time
  elapsed :: Duration

text \<open>
  \<open>collect\<close> returns the samples it sends on the channel, in the order of the sends.
  The line it logs on an error is not part of the model.
\<close>

definition collect ::
  "('f::zero_neq_one) env \<Rightarrow> NASCollector \<Rightarrow> Clock \<Rightarrow> Metric \<Rightarrow> 'f ConstMetric list" where
  "collect E n ck metric =
     (let (sent, err) = scrape E n (now ck) metric;
          duration = elapsed ck;
          success = (if err \<noteq> None then 0 else 1)
      in sent @
         [MustNewConstMetric scrapeDurationDesc GaugeValue (Seconds E duration) [Name metric],
          MustNewConstMetric scrapeSuccessDesc GaugeValue success [Name metric]])"

text \<open>
  \<open>Collect\<close> (here \<open>NASCollector_Collect\<close>) starts one goroutine for each
  metric and waits for all of them. Goroutine \<open>i\<close> reads its own clock, \<open>cks i\<close>.
  \<open>emissions\<close> lists what each goroutine sends; the channel receives these sequences
  interleaved in some order, each sequence in its own order:
  \<open>NASCollector_Collect E n cks out\<close> holds when \<open>out\<close> is such an interleaving.
\<close>

definition emissions ::
  "('f::zero_neq_one) env \<Rightarrow> NASCollector \<Rightarrow> (nat \<Rightarrow> Clock) \<Rightarrow> 'f ConstMetric list list" where
  "emissions E n cks =
     map (\<lambda>i. collect E n (cks i) (nc_metrics n ! i)) [0..<length (nc_metrics n)]"

fun interleaving :: "'a list list \<Rightarrow> 'a list \<Rightarrow> bool" where
  "interleaving xss [] = list_all (\<lambda>xs. xs = []) xss"
| "interleaving xss (y # ys) =
     list_ex (\<lambda>i. (case xss ! i of [] \<Rightarrow> False
                   | x # xs \<Rightarrow> x = y \<and> interleaving (xss[i := xs]) ys))
       [0..<length xss]"

definition NASCollector_Collect ::
  "('f::zero_neq_one) env \<Rightarrow> NASCollector \<Rightarrow> (nat \<Rightarrow> Clock) \<Rightarrow> 'f ConstMetric list \<Rightarrow> bool" where
  "NASCollector_Collect E n cks out = interleaving (emissions E n cks) out"

subsection \<open>Notions used in the statements\<close>

text \<open>What the two parsers make of a data point.\<close>

definition dp_time :: "'f env \<Rightarrow> Datapoint \<Rightarrow> string + Time" where
  "dp_time E dp = time_Parse E RFC3339 (StringValue (Timestamp dp))"

definition dp_value :: "'f env \<Rightarrow> Datapoint \<Rightarrow> string + 'f" where
  "dp_value E dp = ParseFloat E (StringValue (Sum dp))"

text \<open>
  The kinds of error of the specification (section 4.1), by the place in \<open>scrape\<close>
  that returns the error.
\<close>

datatype ErrorKind = RequestBuild | Transport | NoData | ParseFailure

fun kind_of :: "error \<Rightarrow> ErrorKind" where
  "kind_of (FailedBuildingRequest e) = RequestBuild"
| "kind_of (FailedEncodingRequest e) = RequestBuild"
| "kind_of (SendFailed e) = Transport"
| "kind_of FetchedNoDatapoints = NoData"
| "kind_of (CouldNotParseTimestamp s e) = ParseFailure"
| "kind_of (CouldNotParseSum s e) = ParseFailure"

text \<open>
  The samples of a metric on the channel: its value sample carries its descriptor, its
  duration and success samples carry its name as the only label value.
\<close>

definition is_value_of :: "Metric \<Rightarrow> 'f ConstMetric \<Rightarrow> bool" where
  "is_value_of m s = (desc s = Desc m)"

definition is_duration_of :: "Metric \<Rightarrow> 'f ConstMetric \<Rightarrow> bool" where
  "is_duration_of m s = (desc s = scrapeDurationDesc \<and> labelValues s = [Name m])"

definition is_success_of :: "Metric \<Rightarrow> 'f ConstMetric \<Rightarrow> bool" where
  "is_success_of m s = (desc s = scrapeSuccessDesc \<and> labelValues s = [Name m])"

definition belongs_to :: "Metric \<Rightarrow> 'f ConstMetric \<Rightarrow> bool" where
  "belongs_to m s = (is_value_of m s \<or> is_duration_of m s \<or> is_success_of m s)"

text \<open>
  A list of metrics is told apart by its samples when the names differ, the descriptors
  differ, and no descriptor is one of the two descriptors of the collector itself.
\<close>

definition distinct_metrics :: "Metric list \<Rightarrow> bool" where
  "distinct_metrics ms =
     (distinct (map Name ms) \<and> distinct (map Desc ms) \<and>
      scrapeDurationDesc \<notin> set (map Desc ms) \<and> scrapeSuccessDesc \<notin> set (map Desc ms))"

text \<open>A sample with the measured value of a duration sample erased.\<close>

definition erase_duration :: "('f::zero) ConstMetric \<Rightarrow> 'f ConstMetric" where
  "erase_duration s = (if desc s = scrapeDurationDesc then s\<lparr>val := 0\<rparr> else s)"

subsection \<open>A test double of the environment\<close>

text \<open>
  For evaluating the model on concrete responses: an environment whose \<open>Send\<close> is given,
  whose request always builds, and whose parsers and formatter are tables that agree with
  Go's on the strings used below. \<open>float64\<close> is read as \<open>real\<close>.
  2020-01-01T00:00:00Z is 63713433600 seconds after the zero Time.
\<close>

definition at_second :: "int \<Rightarrow> Time" where
  "at_second k = \<lparr>nsec = k * Second, loc = UTC\<rparr>"

definition stub_time_Parse :: "string \<Rightarrow> string \<Rightarrow> string + Time" where
  "stub_time_Parse layout s =
     (if layout \<noteq> RFC3339 then Inl ''parsing time: unexpected layout''
      else if s = ''2020-01-01T00:00:00Z'' then Inr (at_second 63713433600)
      else if s = ''2020-01-01T00:01:00Z'' then Inr (at_second 63713433660)
      else if s = ''2020-01-01T00:02:00Z'' then Inr (at_second 63713433720)
      else if s = ''0000-12-31T23:59:59Z'' then Inr (at_second (- 1))
      else Inl ''parsing time: cannot parse'')"

definition stub_ParseFloat :: "string \<Rightarrow> string + real" where
  "stub_ParseFloat s =
     (if s = ''1'' then Inr 1
      else if s = ''2'' then Inr 2
      else if s = ''5'' then Inr 5
      else if s = ''42'' then Inr 42
      else Inl ''strconv.ParseFloat: invalid syntax'')"

definition stub_Format :: "Time \<Rightarrow> string \<Rightarrow> string" where
  "stub_Format t layout =
     (if loc t = UTC \<and> layout = ''2006-01-02 15:04:05'' then
        (if nsec t = 63713433750 * Second then ''2020-01-01 00:02:30''
         else if nsec t = 63713433570 * Second then ''2019-12-31 23:59:30''
         else ''?'')
      else ''?'')"

definition stub_Encode :: "Values \<Rightarrow> string" where
  "stub_Encode v =
     ''StartTime='' @ concat (case v ''StartTime'' of None \<Rightarrow> [] | Some l \<Rightarrow> l) @
     ''&EndTime='' @ concat (case v ''EndTime'' of None \<Rightarrow> [] | Some l \<Rightarrow> l)"

definition stub :: "(Request \<Rightarrow> string + Datapoint list) \<Rightarrow> real env" where
  "stub send =
     \<lparr>OperationName = ''GetMetricStatistics'', APIVersion = ''N2016-02-24'',
      Build = (\<lambda>r. None),
      queryutil_Parse = (\<lambda>body input. Inr (body(''MetricName'' \<mapsto> [StringValue (MetricName input)]))),
      Encode = stub_Encode,
      Send = send,
      Format = stub_Format,
      time_Parse = stub_time_Parse,
      ParseFloat = stub_ParseFloat,
      Seconds = (\<lambda>d. real_of_int d / 1000000000)\<rparr>"

definition point :: "string \<Rightarrow> string \<Rightarrow> Datapoint" where
  "point t v = \<lparr>Timestamp = Some t, Sum = Some v\<rparr>"

text \<open>The fetch layer that answers every request with the same data points.\<close>

definition answer :: "Datapoint list \<Rightarrow> Request \<Rightarrow> string + Datapoint list" where
  "answer dps r = Inr dps"

definition nas1 :: NASCollector where
  "nas1 = NewNASCollector ''nas1'' ''key'' ''secret'' ''jp-east-1''"

definition FreeStorageSpace :: Metric where
  "FreeStorageSpace = metrics ! 0"

definition UsedStorageSpace :: Metric where
  "UsedStorageSpace = metrics ! 1"

definition local_now :: Time where
  "local_now = \<lparr>nsec = 63713433750 * Second, loc = Local\<rparr>"

text \<open>
  A pass over two metrics: the query for \<open>FreeStorageSpace\<close> is answered with three data
  points, out of order, after 50 ms; the query for any other metric fails (\<open>send_one\<close>)
  or is answered with no data point (\<open>send_one_rest_empty\<close>) after 10 ms.
\<close>

definition nas2 :: NASCollector where
  "nas2 = nas1\<lparr>nc_metrics := [FreeStorageSpace, UsedStorageSpace]\<rparr>"

definition three_points :: "Datapoint list" where
  "three_points = [point ''2020-01-01T00:00:00Z'' ''1'', point ''2020-01-01T00:02:00Z'' ''42'',
                   point ''2020-01-01T00:01:00Z'' ''2'']"

definition send_one :: "Request \<Rightarrow> string + Datapoint list" where
  "send_one r = (if MetricName (Params r) = Some ''FreeStorageSpace'' then Inr three_points
                 else Inl ''connection refused'')"

definition send_one_rest_empty :: "Request \<Rightarrow> string + Datapoint list" where
  "send_one_rest_empty r = (if MetricName (Params r) = Some ''FreeStorageSpace'' then Inr three_points
                            else Inr [])"

definition clocks :: "nat \<Rightarrow> Clock" where
  "clocks i = \<lparr>now = local_now, elapsed = (if i = 0 then 50000000 else 10000000)\<rparr>"

definition slower_clocks :: "nat \<Rightarrow> Clock" where
  "slower_clocks i = \<lparr>now = Add local_now (60 * Second), elapsed = (if i = 0 then 70000000 else 20000000)\<rparr>"

definition free_value :: "real ConstMetric" where
  "free_value = MustNewConstMetric (Desc FreeStorageSpace) GaugeValue 42 [''nas1'', ''jp-east-1'']"

definition duration_sample :: "string \<Rightarrow> real \<Rightarrow> real ConstMetric" where
  "duration_sample name v = MustNewConstMetric scrapeDurationDesc GaugeValue v [name]"

definition success_sample :: "string \<Rightarrow> real \<Rightarrow> real ConstMetric" where
  "success_sample name v = MustNewConstMetric scrapeSuccessDesc GaugeValue v [name]"

text \<open>The failing fetch ends first: its two samples reach the channel before the others.\<close>

definition channel2 :: "real ConstMetric list" where
  "channel2 =
     [duration_sample ''UsedStorageSpace'' (1 / 100), success_sample ''UsedStorageSpace'' 0,
      free_value, duration_sample ''FreeStorageSpace'' (1 / 20),
      success_sample ''FreeStorageSpace'' 1]"


section \<open>The loop over the data points\<close>

lemma scan_Cons:
  "scan E latest latestVal (dp # dps) =
     (case dp_time E dp of
        Inl err \<Rightarrow> Inl (CouldNotParseTimestamp (StringValue (Timestamp dp)) err)
      | Inr timestamp \<Rightarrow>
          if Before timestamp latest then scan E latest latestVal dps
          else (case dp_value E dp of
                  Inl err \<Rightarrow> Inl (CouldNotParseSum (StringValue (Sum dp)) err)
                | Inr v \<Rightarrow> scan E timestamp v dps))"
  unfolding dp_time_def dp_value_def by simp

declare scan.simps(2) [simp del]

text \<open>Data points before \<open>latest\<close> leave the loop's state as it is.\<close>

lemma scan_skip:
  "\<forall>p\<in>set dps. \<exists>t. dp_time E p = Inr t \<and> Before t latest \<Longrightarrow> scan E latest v dps = Inr v"
proof (induction dps)
  case Nil
  show ?case by simp
next
  case (Cons p dps)
  from Cons.prems obtain t where "dp_time E p = Inr t" "Before t latest" by auto
  moreover have "scan E latest v dps = Inr v" using Cons by simp
  ultimately show ?case by (simp add: scan_Cons)
qed

text \<open>
  The loop ends with the value of the data point \<open>dp\<close> when no earlier point is later
  than \<open>dp\<close> and every later point is before it.
\<close>

lemma scan_last_max:
  assumes "dp_time E dp = Inr t" "dp_value E dp = Inr v" "\<not> Before t latest"
    and "\<forall>p\<in>set pre. (\<exists>t'. dp_time E p = Inr t' \<and> \<not> Before t t') \<and> (\<exists>v'. dp_value E p = Inr v')"
    and "\<forall>p\<in>set post. \<exists>t'. dp_time E p = Inr t' \<and> Before t' t"
  shows "scan E latest v0 (pre @ dp # post) = Inr v"
  using assms(3,4)
proof (induction pre arbitrary: latest v0)
  case Nil
  then show ?case using assms(1,2) scan_skip[OF assms(5)] by (simp add: scan_Cons)
next
  case (Cons p pre)
  obtain t' v' where p: "dp_time E p = Inr t'" "\<not> Before t t'" "dp_value E p = Inr v'"
    using Cons.prems(2) by auto
  have rest: "\<forall>q\<in>set pre. (\<exists>t'. dp_time E q = Inr t' \<and> \<not> Before t t') \<and> (\<exists>v'. dp_value E q = Inr v')"
    using Cons.prems(2) by simp
  show ?case
  proof (cases "Before t' latest")
    case True
    then show ?thesis using p Cons.IH[OF Cons.prems(1) rest] by (simp add: scan_Cons)
  next
    case False
    then show ?thesis using p Cons.IH[OF p(2) rest] by (simp add: scan_Cons)
  qed
qed

lemma scan_error_kind: "scan E latest v dps = Inl e \<Longrightarrow> kind_of e = ParseFailure"
  by (induction dps arbitrary: latest v) (auto simp: scan_Cons split: sum.splits if_splits)

lemma scan_bad_timestamp:
  "p \<in> set dps \<Longrightarrow> dp_time E p = Inl msg \<Longrightarrow> \<exists>e. scan E latest v dps = Inl e"
  by (induction dps arbitrary: latest v) (auto simp: scan_Cons split: sum.splits)

lemma scan_bad_sum:
  assumes "dp_time E dp = Inr t" "dp_value E dp = Inl msg" "\<not> Before t latest"
    and "\<forall>p\<in>set pre. \<forall>t'. dp_time E p = Inr t' \<longrightarrow> \<not> Before t t'"
  shows "\<exists>e. scan E latest v0 (pre @ dp # post) = Inl e"
  using assms(3,4)
proof (induction pre arbitrary: latest v0)
  case Nil
  then show ?case using assms(1,2) by (simp add: scan_Cons)
next
  case (Cons p pre)
  show ?case
  proof (cases "dp_time E p")
    case (Inl a)
    then show ?thesis by (simp add: scan_Cons)
  next
    case (Inr t')
    have nb: "\<not> Before t t'" using Cons.prems(2) Inr by simp
    have rest: "\<forall>q\<in>set pre. \<forall>t'. dp_time E q = Inr t' \<longrightarrow> \<not> Before t t'"
      using Cons.prems(2) by simp
    show ?thesis
      using Inr Cons.IH[OF Cons.prems(1) rest] Cons.IH[OF nb rest]
      by (cases "dp_value E p") (auto simp: scan_Cons)
  qed
qed

text \<open>
  A data point that is older than a data point before it in the response, or older than
  \<open>latest\<close>, plays no part in the loop: its value is not looked at.
\<close>

lemma scan_skip_point:
  assumes "dp_time E dp = Inr t"
    and "Before t latest \<or> (\<exists>q\<in>set pre. \<exists>t'. dp_time E q = Inr t' \<and> Before t t')"
  shows "scan E latest v (pre @ dp # post) = scan E latest v (pre @ post)"
  using assms(2)
proof (induction pre arbitrary: latest v)
  case Nil
  then show ?case using assms(1) by (simp add: scan_Cons)
next
  case (Cons p pre)
  show ?case
  proof (cases "dp_time E p")
    case (Inl a)
    then show ?thesis by (simp add: scan_Cons)
  next
    case (Inr t')
    show ?thesis
    proof (cases "Before t' latest")
      case True
      have "Before t latest \<or> (\<exists>q\<in>set pre. \<exists>t'. dp_time E q = Inr t' \<and> Before t t')"
        using Cons.prems Inr True by (auto simp: Before_def)
      then show ?thesis using Inr True Cons.IH by (simp add: scan_Cons)
    next
      case False
      have c: "Before t t' \<or> (\<exists>q\<in>set pre. \<exists>t'. dp_time E q = Inr t' \<and> Before t t')"
        using Cons.prems Inr False by (auto simp: Before_def)
      show ?thesis
        using Inr False Cons.IH[OF c] by (cases "dp_value E p") (simp_all add: scan_Cons)
    qed
  qed
qed

text \<open>The loop and the request do not depend on the transport.\<close>

lemma query_body_Send_update [simp]: "query_body (E\<lparr>Send := s\<rparr>) t r = query_body E t r"
  by (simp add: query_body_def cong: sum.case_cong)

lemma prepare_Send_update [simp]: "prepare (E\<lparr>Send := s\<rparr>) n t m = prepare E n t m"
  by (simp add: prepare_def GetMetricStatisticsRequest_def
      cong: option.case_cong sum.case_cong)

lemma dp_Send_update [simp]:
  "dp_time (E\<lparr>Send := s\<rparr>) dp = dp_time E dp" "dp_value (E\<lparr>Send := s\<rparr>) dp = dp_value E dp"
  by (simp_all add: dp_time_def dp_value_def)

lemma scan_Send_update [simp]: "scan (E\<lparr>Send := s\<rparr>) latest v dps = scan E latest v dps"
  by (induction dps arbitrary: latest v)
    (simp_all add: scan_Cons cong: sum.case_cong if_cong)

text \<open>What \<open>scrape\<close> does once the response has arrived.\<close>

lemma scrape_response:
  assumes "prepare E n now0 metric = Inr req" "Send E req = Inr dps"
  shows "scrape E n now0 metric =
     (if dps = [] then ([], Some FetchedNoDatapoints)
      else case scan E zeroTime 0 dps of
             Inl e \<Rightarrow> ([], Some e)
           | Inr latestVal \<Rightarrow>
               ([MustNewConstMetric (Desc metric) GaugeValue latestVal
                   [nasInstanceIdentifier n, region n]], None))"
  using assms by (simp add: scrape_def)

text \<open>The test double at work.\<close>

lemma prepare_stub:
  "prepare (stub send) nas1 local_now m =
     Inr \<lparr>Operation_Name = ''GetMetricStatistics'', Metadata_APIVersion = ''N2016-02-24'',
          Config = client nas1,
          Params = \<lparr>Dimensions = [\<lparr>DimName = Some ''NASInstanceIdentifier'',
                                    DimValue = Some ''nas1''\<rparr>],
                    MetricName = Some (Name m)\<rparr>,
          BufferBody = ''StartTime=2019-12-31 23:59:30&EndTime=2020-01-01 00:02:30''\<rparr>"
  by (simp add: prepare_def query_body_def stub_def GetMetricStatisticsRequest_def
      SetBufferBody_def Values_Set_def stub_Encode_def stub_Format_def String_def
      StringValue_def In_def Add_def local_now_def Second_def timestampLayout_def
      nas1_def NewNASCollector_def)

lemma dp_time_stub [simp]:
  "dp_time (stub send) (point ''2020-01-01T00:00:00Z'' v) = Inr (at_second 63713433600)"
  "dp_time (stub send) (point ''2020-01-01T00:01:00Z'' v) = Inr (at_second 63713433660)"
  "dp_time (stub send) (point ''2020-01-01T00:02:00Z'' v) = Inr (at_second 63713433720)"
  "dp_time (stub send) (point ''0000-12-31T23:59:59Z'' v) = Inr (at_second (- 1))"
  "dp_time (stub send) (point ''yesterday'' v) = Inl ''parsing time: cannot parse''"
  by (simp_all add: dp_time_def stub_def stub_time_Parse_def point_def StringValue_def RFC3339_def)

lemma dp_value_stub [simp]:
  "dp_value (stub send) (point t ''1'') = Inr 1"
  "dp_value (stub send) (point t ''2'') = Inr 2"
  "dp_value (stub send) (point t ''5'') = Inr 5"
  "dp_value (stub send) (point t ''42'') = Inr 42"
  "dp_value (stub send) (point t ''abc'') = Inl ''strconv.ParseFloat: invalid syntax''"
  by (simp_all add: dp_value_def stub_def stub_ParseFloat_def point_def StringValue_def)

lemma Before_at_second [simp]: "Before (at_second a) (at_second b) \<longleftrightarrow> a < b"
  by (simp add: Before_def at_second_def Second_def)

lemma Before_zeroTime [simp]: "Before (at_second a) zeroTime \<longleftrightarrow> a < 0"
  by (simp add: Before_def at_second_def zeroTime_def Second_def)

lemma nas1_fields [simp]:
  "nasInstanceIdentifier nas1 = ''nas1''" "region nas1 = ''jp-east-1''" "nc_metrics nas1 = metrics"
  by (simp_all add: nas1_def NewNASCollector_def)

lemma Send_stub [simp]: "Send (stub send) = send"
  by (simp add: stub_def)

lemma answer_simp [simp]: "answer dps r = Inr dps"
  by (simp add: answer_def)

section \<open>Which data point scrape keeps\<close>

text \<open>
  C1. The claim: when the response has at least one data point, all timestamps parse and
  differ and all values parse, the value sent is that of the data point with the latest
  timestamp. The loop starts from the zero Time, so a response all of whose timestamps
  are before January 1 of year 1 has every data point skipped: \<open>scrape\<close> then sends the
  initial value 0 and returns no error. Here the only data point carries the value 5 at
  0000-12-31T23:59:59Z, a timestamp that \<open>time.Parse\<close> accepts.
\<close>

theorem scrape_before_zero_time_sends_zero:
  "scrape (stub (answer [point ''0000-12-31T23:59:59Z'' ''5''])) nas1 local_now FreeStorageSpace =
     ([MustNewConstMetric (Desc FreeStorageSpace) GaugeValue 0 [''nas1'', ''jp-east-1'']], None)
   \<and> dp_value (stub (answer [point ''0000-12-31T23:59:59Z'' ''5'']))
        (point ''0000-12-31T23:59:59Z'' ''5'') = Inr 5"
  by (simp add: scrape_response[OF prepare_stub] scan_Cons)

text \<open>
  C2. The claim: among data points that share the latest timestamp, the first one in the
  order of the response is kept. In the loop a data point is skipped only when its
  timestamp is before \<open>latest\<close>, so a data point with the same timestamp replaces the
  value: with the values 1 and 2 at one timestamp, 2 is sent.
\<close>

theorem first_of_latest_kept_counterexample:
  "map val (fst (scrape
      (stub (answer [point ''2020-01-01T00:02:00Z'' ''1'', point ''2020-01-01T00:02:00Z'' ''2'']))
      nas1 local_now FreeStorageSpace)) = [2]
   \<and> dp_value (stub (answer [point ''2020-01-01T00:02:00Z'' ''1'', point ''2020-01-01T00:02:00Z'' ''2'']))
        (point ''2020-01-01T00:02:00Z'' ''1'') = Inr 1
   \<and> (2::real) \<noteq> 1"
  by (simp add: scrape_response[OF prepare_stub] scan_Cons MustNewConstMetric_def)

text \<open>
  C2, as amended: the value kept is that of the last data point, in the order of the
  response, that carries the latest timestamp. In the statement \<open>dp\<close> is that data
  point: no data point before it in the response is later, every data point after it is
  earlier. The timestamps parse, the values of \<open>dp\<close> and of the data points before it
  parse, and the latest timestamp is not before the zero Time.
\<close>

theorem scrape_keeps_last_of_latest:
  assumes "prepare E n now0 metric = Inr req"
    and "Send E req = Inr (pre @ dp # post)"
    and "dp_time E dp = Inr t" and "dp_value E dp = Inr v"
    and "\<not> Before t zeroTime"
    and "\<forall>p\<in>set pre. (\<exists>t'. dp_time E p = Inr t' \<and> \<not> Before t t') \<and> (\<exists>v'. dp_value E p = Inr v')"
    and "\<forall>p\<in>set post. \<exists>t'. dp_time E p = Inr t' \<and> Before t' t"
  shows "scrape E n now0 metric =
     ([MustNewConstMetric (Desc metric) GaugeValue v [nasInstanceIdentifier n, region n]], None)"
  using scrape_response[OF assms(1,2)] scan_last_max[OF assms(3,4,5,6,7)] by simp

theorem scrape_keeps_last_of_latest_witness:
  "scrape
     (stub (answer [point ''2020-01-01T00:02:00Z'' ''1'', point ''2020-01-01T00:00:00Z'' ''5'',
                      point ''2020-01-01T00:02:00Z'' ''42'', point ''2020-01-01T00:01:00Z'' ''2'']))
     nas1 local_now FreeStorageSpace =
     ([MustNewConstMetric (Desc FreeStorageSpace) GaugeValue 42 [''nas1'', ''jp-east-1'']], None)"
  using scrape_keeps_last_of_latest[
      where pre = "[point ''2020-01-01T00:02:00Z'' ''1'', point ''2020-01-01T00:00:00Z'' ''5'']"
        and dp = "point ''2020-01-01T00:02:00Z'' ''42''"
        and post = "[point ''2020-01-01T00:01:00Z'' ''2'']"
        and t = "at_second 63713433720" and v = 42,
      OF prepare_stub]
  by simp

section \<open>Data points that do not parse\<close>

text \<open>
  C3. The claim: a malformed timestamp or a malformed value in any data point makes the
  fetch fail with a parse failure. The value of a data point is parsed only after its
  timestamp was found not to be before \<open>latest\<close>: here the second data point is older
  than the first, its value \<open>abc\<close> is never parsed, and \<open>scrape\<close> succeeds.
\<close>

theorem malformed_value_skipped_counterexample:
  "scrape
     (stub (answer [point ''2020-01-01T00:02:00Z'' ''1'', point ''2020-01-01T00:00:00Z'' ''abc'']))
     nas1 local_now FreeStorageSpace =
     ([MustNewConstMetric (Desc FreeStorageSpace) GaugeValue 1 [''nas1'', ''jp-east-1'']], None)
   \<and> dp_value (stub (answer [point ''2020-01-01T00:02:00Z'' ''1'', point ''2020-01-01T00:00:00Z'' ''abc'']))
        (point ''2020-01-01T00:00:00Z'' ''abc'') = Inl ''strconv.ParseFloat: invalid syntax''"
  by (simp add: scrape_response[OF prepare_stub] scan_Cons)

text \<open>
  C3, as amended: the fetch fails with a parse failure, and sends no value, when some
  data point \<open>p\<close> has a malformed timestamp, or when some data point \<open>dp\<close> has a
  malformed value and a timestamp that is neither before the zero Time nor before the
  timestamp of a data point that precedes it in the response. The value of a data point
  \<open>dp\<close> whose timestamp is before that of a data point preceding it in the response is
  never parsed: the fetch returns what it returns when the response lacks \<open>dp\<close>,
  whatever the value of \<open>dp\<close> is.
\<close>

theorem scrape_parse_failure:
  assumes "prepare E n now0 metric = Inr req"
    and "Send E req = Inr dps"
  shows "(p \<in> set dps \<and> dp_time E p = Inl msg \<longrightarrow>
            (\<exists>e. scrape E n now0 metric = ([], Some e) \<and> kind_of e = ParseFailure))
       \<and> (dps = pre @ dp # post \<and> dp_time E dp = Inr t \<and> dp_value E dp = Inl msg \<and>
            \<not> Before t zeroTime \<and>
            (\<forall>q\<in>set pre. \<forall>t'. dp_time E q = Inr t' \<longrightarrow> \<not> Before t t') \<longrightarrow>
            (\<exists>e. scrape E n now0 metric = ([], Some e) \<and> kind_of e = ParseFailure))
       \<and> (dps = pre @ dp # post \<and> dp_time E dp = Inr t \<and>
            (\<exists>q\<in>set pre. \<exists>t'. dp_time E q = Inr t' \<and> Before t t') \<longrightarrow>
            scrape E n now0 metric =
              scrape (E\<lparr>Send := \<lambda>r. Inr (pre @ post)\<rparr>) n now0 metric)"
proof (intro conjI impI)
  assume a: "p \<in> set dps \<and> dp_time E p = Inl msg"
  then have ne: "dps \<noteq> []" by auto
  obtain e where e: "scan E zeroTime 0 dps = Inl e"
    using a scan_bad_timestamp[of p dps E msg zeroTime 0] by blast
  then have "kind_of e = ParseFailure" by (rule scan_error_kind)
  then show "\<exists>e. scrape E n now0 metric = ([], Some e) \<and> kind_of e = ParseFailure"
    using scrape_response[OF assms(1,2)] ne e by simp
next
  assume a: "dps = pre @ dp # post \<and> dp_time E dp = Inr t \<and> dp_value E dp = Inl msg \<and>
            \<not> Before t zeroTime \<and>
            (\<forall>q\<in>set pre. \<forall>t'. dp_time E q = Inr t' \<longrightarrow> \<not> Before t t')"
  then have ne: "dps \<noteq> []" by auto
  obtain e where e: "scan E zeroTime 0 dps = Inl e"
    using a scan_bad_sum[of E dp t msg zeroTime pre 0 post] by blast
  then have "kind_of e = ParseFailure" by (rule scan_error_kind)
  then show "\<exists>e. scrape E n now0 metric = ([], Some e) \<and> kind_of e = ParseFailure"
    using scrape_response[OF assms(1,2)] ne e by simp
next
  assume a: "dps = pre @ dp # post \<and> dp_time E dp = Inr t \<and>
            (\<exists>q\<in>set pre. \<exists>t'. dp_time E q = Inr t' \<and> Before t t')"
  let ?E = "E\<lparr>Send := \<lambda>r. Inr (pre @ post)\<rparr>"
  have ne: "dps \<noteq> []" "pre @ post \<noteq> []" using a by auto
  have sk: "scan E zeroTime 0 dps = scan E zeroTime 0 (pre @ post)"
    using a scan_skip_point[of E dp t zeroTime pre 0 post] by blast
  have p': "prepare ?E n now0 metric = Inr req" using assms(1) by simp
  have s': "Send ?E req = Inr (pre @ post)" by simp
  show "scrape E n now0 metric = scrape ?E n now0 metric"
    using scrape_response[OF assms(1,2)] scrape_response[OF p' s'] ne sk by simp
qed

theorem scrape_parse_failure_witness:
  "(\<exists>e. scrape
      (stub (answer [point ''2020-01-01T00:02:00Z'' ''1'', point ''yesterday'' ''2'']))
      nas1 local_now FreeStorageSpace = ([], Some e) \<and> kind_of e = ParseFailure)
   \<and> (\<exists>e. scrape
      (stub (answer [point ''2020-01-01T00:00:00Z'' ''1'', point ''2020-01-01T00:01:00Z'' ''abc'',
                       point ''2020-01-01T00:02:00Z'' ''2'']))
      nas1 local_now FreeStorageSpace = ([], Some e) \<and> kind_of e = ParseFailure)
   \<and> scrape
      (stub (answer [point ''2020-01-01T00:01:00Z'' ''42'', point ''2020-01-01T00:00:00Z'' ''abc'',
                     point ''2020-01-01T00:02:00Z'' ''5'']))
      nas1 local_now FreeStorageSpace =
     scrape
      (stub (answer [point ''2020-01-01T00:01:00Z'' ''42'', point ''2020-01-01T00:00:00Z'' ''abc'',
                     point ''2020-01-01T00:02:00Z'' ''5''])
       \<lparr>Send := \<lambda>r. Inr ([point ''2020-01-01T00:01:00Z'' ''42''] @
                              [point ''2020-01-01T00:02:00Z'' ''5''])\<rparr>)
      nas1 local_now FreeStorageSpace
   \<and> scrape
      (stub (answer [point ''2020-01-01T00:01:00Z'' ''42'', point ''2020-01-01T00:00:00Z'' ''abc'',
                     point ''2020-01-01T00:02:00Z'' ''5'']))
      nas1 local_now FreeStorageSpace =
     ([MustNewConstMetric (Desc FreeStorageSpace) GaugeValue 5 [''nas1'', ''jp-east-1'']], None)"
proof -
  have s3: "scrape
      (stub (answer [point ''2020-01-01T00:01:00Z'' ''42'', point ''2020-01-01T00:00:00Z'' ''abc'',
                     point ''2020-01-01T00:02:00Z'' ''5'']))
      nas1 local_now FreeStorageSpace =
     ([MustNewConstMetric (Desc FreeStorageSpace) GaugeValue 5 [''nas1'', ''jp-east-1'']], None)"
    by (simp add: scrape_response[OF prepare_stub] scan_Cons)
  show ?thesis
    using
      scrape_parse_failure[
        where dps = "[point ''2020-01-01T00:02:00Z'' ''1'', point ''yesterday'' ''2'']"
          and p = "point ''yesterday'' ''2''" and msg = "''parsing time: cannot parse''",
        OF prepare_stub, THEN conjunct1]
      scrape_parse_failure[
        where dps = "[point ''2020-01-01T00:00:00Z'' ''1'', point ''2020-01-01T00:01:00Z'' ''abc'',
                      point ''2020-01-01T00:02:00Z'' ''2'']"
          and pre = "[point ''2020-01-01T00:00:00Z'' ''1'']"
          and dp = "point ''2020-01-01T00:01:00Z'' ''abc''"
          and post = "[point ''2020-01-01T00:02:00Z'' ''2'']"
          and t = "at_second 63713433660" and msg = "''strconv.ParseFloat: invalid syntax''",
        OF prepare_stub, THEN conjunct2, THEN conjunct1]
      scrape_parse_failure[
        where dps = "[point ''2020-01-01T00:01:00Z'' ''42'', point ''2020-01-01T00:00:00Z'' ''abc'',
                      point ''2020-01-01T00:02:00Z'' ''5'']"
          and pre = "[point ''2020-01-01T00:01:00Z'' ''42'']"
          and dp = "point ''2020-01-01T00:00:00Z'' ''abc''"
          and post = "[point ''2020-01-01T00:02:00Z'' ''5'']"
          and t = "at_second 63713433600",
        OF prepare_stub, THEN conjunct2, THEN conjunct2]
      s3
    by simp
qed

section \<open>The window of the query\<close>

text \<open>
  C9. A fetch whose request builds hands exactly one request to the transport, and the
  outcome of the fetch is what the answer to that request makes it. The body of that
  request is the encoding of form values in which \<open>StartTime\<close> is the instant \<open>now\<close>
  less 180 seconds and \<open>EndTime\<close> is \<open>now\<close>, both in the location UTC and formatted
  with the layout \<open>2006-01-02 15:04:05\<close>.
\<close>

theorem query_window:
  assumes "prepare E n now0 metric = Inr req"
  shows "(\<exists>body. BufferBody req = Encode E body
    \<and> body ''StartTime'' =
        Some [Format E \<lparr>nsec = nsec now0 - 180 * 1000000000, loc = UTC\<rparr> ''2006-01-02 15:04:05'']
    \<and> body ''EndTime'' =
        Some [Format E \<lparr>nsec = nsec now0, loc = UTC\<rparr> ''2006-01-02 15:04:05''])
    \<and> scrape E n now0 metric =
        (case Send E req of
           Inl err \<Rightarrow> ([], Some (SendFailed err))
         | Inr datapoints \<Rightarrow>
             if length datapoints = 0 then ([], Some FetchedNoDatapoints)
             else (case scan E zeroTime 0 datapoints of
                     Inl e \<Rightarrow> ([], Some e)
                   | Inr latestVal \<Rightarrow>
                       ([MustNewConstMetric (Desc metric) GaugeValue latestVal
                           [nasInstanceIdentifier n, region n]], None)))"
proof -
  let ?request = "GetMetricStatisticsRequest E (client n)
      \<lparr>Dimensions = [\<lparr>DimName = String ''NASInstanceIdentifier'',
                       DimValue = String (nasInstanceIdentifier n)\<rparr>],
       MetricName = String (Name metric)\<rparr>"
  from assms obtain body where body: "query_body E (In now0 UTC) ?request = Inr body"
    and req: "req = SetBufferBody ?request (Encode E body)"
    by (auto simp: prepare_def Let_def split: option.splits sum.splits)
  from body obtain b where
    "body = Values_Set (Values_Set b ''StartTime''
       (Format E (Add (In now0 UTC) (180 * Second * (- 1))) timestampLayout))
       ''EndTime'' (Format E (In now0 UTC) timestampLayout)"
    by (auto simp: query_body_def Let_def split: sum.splits)
  moreover obtain k l where "now0 = \<lparr>nsec = k, loc = l\<rparr>" by (cases now0)
  ultimately have "body ''StartTime'' =
        Some [Format E \<lparr>nsec = nsec now0 - 180 * 1000000000, loc = UTC\<rparr> ''2006-01-02 15:04:05'']"
    and "body ''EndTime'' =
        Some [Format E \<lparr>nsec = nsec now0, loc = UTC\<rparr> ''2006-01-02 15:04:05'']"
    by (simp_all add: Values_Set_def Add_def In_def Second_def timestampLayout_def)
  moreover have "BufferBody req = Encode E body" using req by (simp add: SetBufferBody_def)
  ultimately have 1: "\<exists>body. BufferBody req = Encode E body
    \<and> body ''StartTime'' =
        Some [Format E \<lparr>nsec = nsec now0 - 180 * 1000000000, loc = UTC\<rparr> ''2006-01-02 15:04:05'']
    \<and> body ''EndTime'' =
        Some [Format E \<lparr>nsec = nsec now0, loc = UTC\<rparr> ''2006-01-02 15:04:05'']"
    by blast
  have 2: "scrape E n now0 metric =
        (case Send E req of
           Inl err \<Rightarrow> ([], Some (SendFailed err))
         | Inr datapoints \<Rightarrow>
             if length datapoints = 0 then ([], Some FetchedNoDatapoints)
             else (case scan E zeroTime 0 datapoints of
                     Inl e \<Rightarrow> ([], Some e)
                   | Inr latestVal \<Rightarrow>
                       ([MustNewConstMetric (Desc metric) GaugeValue latestVal
                           [nasInstanceIdentifier n, region n]], None)))"
    using assms by (simp add: scrape_def)
  show ?thesis using 1 2 by (rule conjI)
qed

theorem query_window_witness:
  "(\<exists>body. ''StartTime=2019-12-31 23:59:30&EndTime=2020-01-01 00:02:30'' = stub_Encode body
    \<and> body ''StartTime'' = Some [''2019-12-31 23:59:30'']
    \<and> body ''EndTime'' = Some [''2020-01-01 00:02:30''])
   \<and> scrape (stub (answer [point ''2020-01-01T00:02:00Z'' ''42''])) nas1 local_now FreeStorageSpace =
       ([MustNewConstMetric (Desc FreeStorageSpace) GaugeValue 42 [''nas1'', ''jp-east-1'']], None)"
  using query_window[OF prepare_stub[where send = "answer [point ''2020-01-01T00:02:00Z'' ''42'']"
        and m = FreeStorageSpace]]
  by (simp add: stub_def stub_Format_def local_now_def Second_def scan_Cons
      dp_time_stub[unfolded stub_def] dp_value_stub[unfolded stub_def])

section \<open>Interleavings\<close>

lemma interleaving_Nil_iff: "interleaving xss [] \<longleftrightarrow> (\<forall>xs\<in>set xss. xs = [])"
  by (simp add: list_all_iff)

lemma interleaving_Cons_iff:
  "interleaving xss (y # ys) \<longleftrightarrow>
     (\<exists>i xs. i < length xss \<and> xss ! i = y # xs \<and> interleaving (xss[i := xs]) ys)"
proof
  assume "interleaving xss (y # ys)"
  then obtain i where i: "i < length xss"
    "(case xss ! i of [] \<Rightarrow> False | x # xs \<Rightarrow> x = y \<and> interleaving (xss[i := xs]) ys)"
    by (auto simp: list_ex_iff)
  then show "\<exists>i xs. i < length xss \<and> xss ! i = y # xs \<and> interleaving (xss[i := xs]) ys"
    by (cases "xss ! i") auto
next
  assume "\<exists>i xs. i < length xss \<and> xss ! i = y # xs \<and> interleaving (xss[i := xs]) ys"
  then obtain i xs where "i < length xss" "xss ! i = y # xs" "interleaving (xss[i := xs]) ys"
    by blast
  then have "\<exists>i\<in>set [0..<length xss].
    (case xss ! i of [] \<Rightarrow> False | x # xs \<Rightarrow> x = y \<and> interleaving (xss[i := xs]) ys)"
    by (intro bexI[of _ i]) simp_all
  then show "interleaving xss (y # ys)" by (simp add: list_ex_iff)
qed

declare interleaving.simps [simp del]

lemma mset_concat_update:
  "i < length xss \<Longrightarrow> xss ! i = y # xs \<Longrightarrow>
     mset (concat xss) = add_mset y (mset (concat (xss[i := xs])))"
proof (induction xss arbitrary: i)
  case Nil
  then show ?case by simp
next
  case (Cons a xss)
  then show ?case by (cases i) auto
qed

text \<open>An interleaving has the elements of the sequences, each as often as they have it.\<close>

lemma interleaving_mset: "interleaving xss ys \<Longrightarrow> mset ys = mset (concat xss)"
proof (induction ys arbitrary: xss)
  case Nil
  then show ?case by (induction xss) (auto simp: interleaving_Nil_iff)
next
  case (Cons y ys)
  then obtain i xs where i: "i < length xss" "xss ! i = y # xs" "interleaving (xss[i := xs]) ys"
    by (auto simp: interleaving_Cons_iff)
  then show ?case using Cons.IH[OF i(3)] mset_concat_update[OF i(1,2)] by simp
qed

text \<open>
  When \<open>P\<close> holds of the elements of sequence \<open>k\<close> and of no element of another
  sequence, the elements of an interleaving that satisfy \<open>P\<close> are sequence \<open>k\<close>, in
  its order, and the other elements are an interleaving of the other sequences.
\<close>

lemma selects_update:
  assumes "i < length xss" "xss ! i = y # xs" "k < length xss"
    and "\<forall>x\<in>set (xss ! k). P x"
    and "\<forall>j<length xss. j \<noteq> k \<longrightarrow> (\<forall>x\<in>set (xss ! j). \<not> P x)"
  shows "\<forall>x\<in>set (xss[i := xs] ! k). P x"
    and "\<forall>j<length (xss[i := xs]). j \<noteq> k \<longrightarrow> (\<forall>x\<in>set (xss[i := xs] ! j). \<not> P x)"
proof -
  have sub: "set xs \<subseteq> set (xss ! i)" using assms(2) by auto
  show "\<forall>x\<in>set (xss[i := xs] ! k). P x"
    using assms(1,3,4) sub by (cases "i = k") auto
  show "\<forall>j<length (xss[i := xs]). j \<noteq> k \<longrightarrow> (\<forall>x\<in>set (xss[i := xs] ! j). \<not> P x)"
  proof (intro allI impI)
    fix j assume j: "j < length (xss[i := xs])" "j \<noteq> k"
    show "\<forall>x\<in>set (xss[i := xs] ! j). \<not> P x"
      using assms(5) j assms(1) sub by (cases "i = j") auto
  qed
qed

lemma interleaving_filter:
  assumes "interleaving xss ys" "k < length xss"
    and "\<forall>x\<in>set (xss ! k). P x"
    and "\<forall>j<length xss. j \<noteq> k \<longrightarrow> (\<forall>x\<in>set (xss ! j). \<not> P x)"
  shows "filter P ys = xss ! k"
  using assms
proof (induction ys arbitrary: xss)
  case Nil
  then have "xss ! k = []" using nth_mem[of k xss] by (simp add: interleaving_Nil_iff)
  then show ?case by simp
next
  case (Cons y ys)
  then obtain i xs where i: "i < length xss" "xss ! i = y # xs" "interleaving (xss[i := xs]) ys"
    by (auto simp: interleaving_Cons_iff)
  have k': "k < length (xss[i := xs])" using Cons.prems(2) by simp
  note sel = selects_update[OF i(1,2) Cons.prems(2,3,4)]
  have IH: "filter P ys = xss[i := xs] ! k" by (rule Cons.IH[OF i(3) k' sel])
  show ?case
  proof (cases "i = k")
    case True
    then have "P y" using Cons.prems(3) i(2) by simp
    then show ?thesis using IH True i by simp
  next
    case False
    then have "\<not> P y" using Cons.prems(4) i(1,2) by (metis list.set_intros(1))
    then show ?thesis using IH False by simp
  qed
qed

lemma interleaving_remove:
  assumes "interleaving xss ys" "k < length xss"
    and "\<forall>x\<in>set (xss ! k). P x"
    and "\<forall>j<length xss. j \<noteq> k \<longrightarrow> (\<forall>x\<in>set (xss ! j). \<not> P x)"
  shows "interleaving (take k xss @ drop (Suc k) xss) (filter (\<lambda>x. \<not> P x) ys)"
  using assms
proof (induction ys arbitrary: xss)
  case Nil
  then show ?case by (auto simp: interleaving_Nil_iff dest: in_set_takeD in_set_dropD)
next
  case (Cons y ys)
  then obtain i xs where i: "i < length xss" "xss ! i = y # xs" "interleaving (xss[i := xs]) ys"
    by (auto simp: interleaving_Cons_iff)
  have k': "k < length (xss[i := xs])" using Cons.prems(2) by simp
  note sel = selects_update[OF i(1,2) Cons.prems(2,3,4)]
  let ?r = "\<lambda>zss. take k zss @ drop (Suc k) zss"
  have IH: "interleaving (?r (xss[i := xs])) (filter (\<lambda>x. \<not> P x) ys)"
    by (rule Cons.IH[OF i(3) k' sel])
  show ?case
  proof (cases "i = k")
    case True
    then have "P y" using Cons.prems(3) i(2) by simp
    moreover have "?r (xss[i := xs]) = ?r xss" using True by simp
    ultimately show ?thesis using IH by simp
  next
    case False
    then have ny: "\<not> P y" using Cons.prems(4) i(1,2) by (metis list.set_intros(1))
    define i' where "i' = (if i < k then i else i - 1)"
    have 1: "i' < length (?r xss)" using False i(1) Cons.prems(2) by (auto simp: i'_def)
    have 2: "?r xss ! i' = y # xs"
      using False i(1,2) Cons.prems(2) by (auto simp: i'_def nth_append)
    have 3: "(?r xss)[i' := xs] = ?r (xss[i := xs])"
    proof (cases "i < k")
      case True
      then show ?thesis using Cons.prems(2)
        by (simp add: i'_def list_update_append take_update_swap)
    next
      case ge: False
      with False have ki: "k < i" by simp
      have len: "length (take k xss) = k" using Cons.prems(2) by simp
      have a: "i' = i - 1" "\<not> i - 1 < k" "i - 1 - k = i - Suc k"
        using ki by (simp_all add: i'_def)
      have b: "take k (xss[i := xs]) = take k xss" using ki by simp
      have c: "drop (Suc k) (xss[i := xs]) = (drop (Suc k) xss)[i - Suc k := xs]"
        using ki by (simp add: drop_update_swap)
      show ?thesis unfolding a(1) list_update_append b c len using a(2,3) by presburger
    qed
    have "interleaving (?r xss) (y # filter (\<lambda>x. \<not> P x) ys)"
      unfolding interleaving_Cons_iff using 1 2 3 IH by metis
    then show ?thesis using ny by simp
  qed
qed

text \<open>One sequence after the other is an interleaving: every pass has an output.\<close>

lemma interleaving_Nil_Cons: "interleaving xss ys \<Longrightarrow> interleaving ([] # xss) ys"
proof (induction ys arbitrary: xss)
  case Nil
  then show ?case by (simp add: interleaving_Nil_iff)
next
  case (Cons y ys)
  then obtain i xs where i: "i < length xss" "xss ! i = y # xs" "interleaving (xss[i := xs]) ys"
    by (auto simp: interleaving_Cons_iff)
  have "Suc i < length ([] # xss)" "([] # xss) ! Suc i = y # xs"
    "interleaving (([] # xss)[Suc i := xs]) ys"
    using i Cons.IH[OF i(3)] by simp_all
  then show ?case unfolding interleaving_Cons_iff by blast
qed

lemma interleaving_append_Cons: "interleaving xss ys \<Longrightarrow> interleaving (xs # xss) (xs @ ys)"
proof (induction xs)
  case Nil
  then show ?case by (simp add: interleaving_Nil_Cons)
next
  case (Cons x xs)
  have "0 < length ((x # xs) # xss)" "((x # xs) # xss) ! 0 = x # xs"
    "interleaving (((x # xs) # xss)[0 := xs]) (xs @ ys)"
    using Cons by simp_all
  then show ?case unfolding interleaving_Cons_iff append_Cons by blast
qed

lemma interleaving_concat: "interleaving xss (concat xss)"
  by (induction xss) (simp_all add: interleaving_Nil_iff interleaving_append_Cons)

lemma Collect_sequential: "NASCollector_Collect E n cks (concat (emissions E n cks))"
  by (simp add: NASCollector_Collect_def interleaving_concat)

section \<open>What collect sends\<close>

lemma scrape_cases:
  "(fst (scrape E n t m) = [] \<and> snd (scrape E n t m) \<noteq> None) \<or>
   (\<exists>v. scrape E n t m =
      ([MustNewConstMetric (Desc m) GaugeValue v [nasInstanceIdentifier n, region n]], None))"
  by (auto simp: scrape_def split: sum.splits)

lemma collect_eq:
  "collect E n ck m =
     fst (scrape E n (now ck) m) @
     [MustNewConstMetric scrapeDurationDesc GaugeValue (Seconds E (elapsed ck)) [Name m],
      MustNewConstMetric scrapeSuccessDesc GaugeValue
        (if snd (scrape E n (now ck) m) \<noteq> None then 0 else 1) [Name m]]"
  by (simp add: collect_def Let_def split: prod.splits)

lemma desc_MustNewConstMetric [simp]:
  "desc (MustNewConstMetric d vt v ls) = d"
  "val (MustNewConstMetric d vt v ls) = v"
  "labelValues (MustNewConstMetric d vt v ls) = ls"
  "valType (MustNewConstMetric d vt v ls) = vt"
  by (simp_all add: MustNewConstMetric_def)

lemma collect_belongs: "\<forall>s\<in>set (collect E n ck m). belongs_to m s"
  using scrape_cases[of E n "now ck" m]
  by (auto simp: collect_eq belongs_to_def is_value_of_def is_duration_of_def is_success_of_def)

lemma collect_belongs_other:
  assumes "Name m' \<noteq> Name m" "Desc m' \<noteq> Desc m"
    and "Desc m \<noteq> scrapeDurationDesc" "Desc m \<noteq> scrapeSuccessDesc"
    and "Desc m' \<noteq> scrapeDurationDesc" "Desc m' \<noteq> scrapeSuccessDesc"
  shows "\<forall>s\<in>set (collect E n ck m'). \<not> belongs_to m s"
  using scrape_cases[of E n "now ck" m'] assms
  by (auto simp: collect_eq belongs_to_def is_value_of_def is_duration_of_def is_success_of_def)

lemma length_emissions [simp]: "length (emissions E n cks) = length (nc_metrics n)"
  by (simp add: emissions_def)

lemma nth_emissions [simp]:
  "i < length (nc_metrics n) \<Longrightarrow> emissions E n cks ! i = collect E n (cks i) (nc_metrics n ! i)"
  by (simp add: emissions_def)

lemma distinct_metrics_nth:
  assumes "distinct_metrics ms" "i < length ms" "j < length ms" "j \<noteq> i"
  shows "Name (ms ! j) \<noteq> Name (ms ! i)" "Desc (ms ! j) \<noteq> Desc (ms ! i)"
    "Desc (ms ! i) \<noteq> scrapeDurationDesc" "Desc (ms ! i) \<noteq> scrapeSuccessDesc"
proof -
  have "distinct (map Name ms)" "distinct (map Desc ms)"
    using assms(1) by (simp_all add: distinct_metrics_def)
  then show "Name (ms ! j) \<noteq> Name (ms ! i)" "Desc (ms ! j) \<noteq> Desc (ms ! i)"
    using assms(2,3,4) by (auto simp: distinct_conv_nth)
  have "Desc (ms ! i) \<in> set (map Desc ms)" using assms(2) by simp
  then show "Desc (ms ! i) \<noteq> scrapeDurationDesc" "Desc (ms ! i) \<noteq> scrapeSuccessDesc"
    using assms(1) unfolding distinct_metrics_def by metis+
qed

text \<open>
  On the channel, the samples of a metric are what its goroutine sent, in the order it
  sent them, and nothing else.
\<close>

lemma emissions_selects:
  assumes "distinct_metrics (nc_metrics n)" "i < length (nc_metrics n)"
  shows "\<forall>s\<in>set (emissions E n cks ! i). belongs_to (nc_metrics n ! i) s"
    and "\<forall>j<length (emissions E n cks). j \<noteq> i \<longrightarrow>
           (\<forall>s\<in>set (emissions E n cks ! j). \<not> belongs_to (nc_metrics n ! i) s)"
proof -
  show "\<forall>s\<in>set (emissions E n cks ! i). belongs_to (nc_metrics n ! i) s"
    using assms(2) collect_belongs by simp
  show "\<forall>j<length (emissions E n cks). j \<noteq> i \<longrightarrow>
           (\<forall>s\<in>set (emissions E n cks ! j). \<not> belongs_to (nc_metrics n ! i) s)"
  proof (intro allI impI)
    fix j assume j: "j < length (emissions E n cks)" "j \<noteq> i"
    then have jl: "j < length (nc_metrics n)" by simp
    have ij: "i \<noteq> j" using j(2) by simp
    show "\<forall>s\<in>set (emissions E n cks ! j). \<not> belongs_to (nc_metrics n ! i) s"
      using collect_belongs_other[OF distinct_metrics_nth(1,2)[OF assms(1,2) jl j(2)]
          distinct_metrics_nth(3,4)[OF assms(1,2) jl j(2)]
          distinct_metrics_nth(3,4)[OF assms(1) jl assms(2) ij]] jl
      by simp
  qed
qed

lemma Collect_project:
  assumes "NASCollector_Collect E n cks out" "distinct_metrics (nc_metrics n)" "i < length (nc_metrics n)"
  shows "filter (belongs_to (nc_metrics n ! i)) out = collect E n (cks i) (nc_metrics n ! i)"
proof -
  have "filter (belongs_to (nc_metrics n ! i)) out = emissions E n cks ! i"
    using assms(1,3) emissions_selects[OF assms(2,3)]
    by (intro interleaving_filter) (simp_all add: NASCollector_Collect_def)
  then show ?thesis using assms(3) by simp
qed

lemma filter_value_of:
  "filter (is_value_of m) out = filter (is_value_of m) (filter (belongs_to m) out)"
  by (induction out) (auto simp: belongs_to_def)

lemma filter_duration_of:
  "filter (is_duration_of m) out = filter (is_duration_of m) (filter (belongs_to m) out)"
  by (induction out) (auto simp: belongs_to_def)

lemma filter_success_of:
  "filter (is_success_of m) out = filter (is_success_of m) (filter (belongs_to m) out)"
  by (induction out) (auto simp: belongs_to_def)

text \<open>The descriptors of the package are told apart.\<close>

lemma distinct_metrics_metrics: "distinct_metrics metrics"
  by (simp add: distinct_metrics_def metrics_def NewDesc_def BuildFQName_def namespace_def
      scrapeDurationDesc_def scrapeSuccessDesc_def)

lemma metrics_label_arity: "\<forall>m\<in>set metrics. length (variableLabels (Desc m)) = 2"
  by (simp add: metrics_def NewDesc_def label_def)

section \<open>Passes\<close>

lemma meta_descs_differ: "scrapeDurationDesc \<noteq> scrapeSuccessDesc"
  by (simp add: scrapeDurationDesc_def scrapeSuccessDesc_def NewDesc_def BuildFQName_def namespace_def)

lemma collect_durations:
  "Desc m \<noteq> scrapeDurationDesc \<Longrightarrow>
     filter (\<lambda>s. desc s = scrapeDurationDesc) (collect E n ck m) =
       [MustNewConstMetric scrapeDurationDesc GaugeValue (Seconds E (elapsed ck)) [Name m]]"
  using scrape_cases[of E n "now ck" m] meta_descs_differ
  by (auto simp: collect_eq)

lemma collect_successes:
  "Desc m \<noteq> scrapeSuccessDesc \<Longrightarrow>
     filter (\<lambda>s. desc s = scrapeSuccessDesc) (collect E n ck m) =
       [MustNewConstMetric scrapeSuccessDesc GaugeValue
          (if snd (scrape E n (now ck) m) \<noteq> None then 0 else 1) [Name m]]"
  using scrape_cases[of E n "now ck" m] meta_descs_differ
  by (auto simp: collect_eq)

lemma concat_map_singleton: "concat (map (\<lambda>x. [g x]) xs) = map g xs"
  by (induction xs) simp_all

lemma map_nth_upt: "map (\<lambda>i. g (xs ! i)) [0..<length xs] = map g xs"
  by (rule nth_equalityI) simp_all

lemma emissions_labels:
  assumes "\<And>ck m. m \<in> set (nc_metrics n) \<Longrightarrow>
             map labelValues (filter P (collect E n ck m)) = [[Name m]]"
  shows "map labelValues (filter P (concat (emissions E n cks))) =
           map (\<lambda>m. [Name m]) (nc_metrics n)"
proof -
  have "map labelValues (filter P (concat (emissions E n cks))) =
      concat (map (\<lambda>i. map labelValues (filter P (collect E n (cks i) (nc_metrics n ! i))))
        [0..<length (nc_metrics n)])"
    by (simp add: emissions_def filter_concat map_concat comp_def)
  also have "\<dots> = concat (map (\<lambda>i. [[Name (nc_metrics n ! i)]]) [0..<length (nc_metrics n)])"
    using assms by (intro arg_cong[where f = concat] map_cong) simp_all
  also have "\<dots> = map (\<lambda>m. [Name m]) (nc_metrics n)"
    using map_nth_upt[of "\<lambda>m. [Name m]" "nc_metrics n"] by (simp add: concat_map_singleton)
  finally show ?thesis .
qed

lemma mset_map_filter_interleaving:
  "interleaving xss ys \<Longrightarrow> mset (map f (filter P ys)) = mset (map f (filter P (concat xss)))"
  using interleaving_mset[of xss ys] by (metis mset_filter mset_map)

lemma prepare_nc_metrics [simp]: "prepare E (n\<lparr>nc_metrics := ms\<rparr>) t m = prepare E n t m"
  by (simp add: prepare_def)

lemma scrape_nc_metrics [simp]: "scrape E (n\<lparr>nc_metrics := ms\<rparr>) t m = scrape E n t m"
  by (auto simp: scrape_def split: sum.splits)

lemma collect_nc_metrics [simp]: "collect E (n\<lparr>nc_metrics := ms\<rparr>) ck m = collect E n ck m"
  by (simp add: collect_def)

lemma emissions_remove:
  assumes "i < length (nc_metrics n)"
  shows "emissions E (n\<lparr>nc_metrics := take i (nc_metrics n) @ drop (Suc i) (nc_metrics n)\<rparr>)
           (\<lambda>j. cks (if j < i then j else Suc j)) =
         take i (emissions E n cks) @ drop (Suc i) (emissions E n cks)"
proof (rule nth_equalityI)
  show "length (emissions E (n\<lparr>nc_metrics := take i (nc_metrics n) @ drop (Suc i) (nc_metrics n)\<rparr>)
           (\<lambda>j. cks (if j < i then j else Suc j))) =
        length (take i (emissions E n cks) @ drop (Suc i) (emissions E n cks))"
    by simp
next
  fix j
  assume "j < length (emissions E (n\<lparr>nc_metrics := take i (nc_metrics n) @ drop (Suc i) (nc_metrics n)\<rparr>)
           (\<lambda>j. cks (if j < i then j else Suc j)))"
  then have j: "j < length (nc_metrics n) - 1" using assms by simp
  show "emissions E (n\<lparr>nc_metrics := take i (nc_metrics n) @ drop (Suc i) (nc_metrics n)\<rparr>)
           (\<lambda>j. cks (if j < i then j else Suc j)) ! j =
        (take i (emissions E n cks) @ drop (Suc i) (emissions E n cks)) ! j"
  proof (cases "j < i")
    case True
    then show ?thesis using j assms by (simp add: nth_append)
  next
    case False
    then have "Suc i + (j - i) = Suc j" by simp
    then show ?thesis using False j assms by (simp add: nth_append min_def)
  qed
qed




text \<open>
  When the answer to a request does not depend on its body, \<open>scrape\<close> does not depend on
  the time it is called at.
\<close>

lemma scrape_now_irrelevant:
  assumes "\<forall>r b. Send E (SetBufferBody r b) = Send E r"
  shows "scrape E n t m = scrape E n t' m"
  using assms
  by (auto simp: scrape_def prepare_def query_body_def Let_def split: option.splits sum.splits)

lemma collect_erase_duration:
  assumes "\<forall>r b. Send E (SetBufferBody r b) = Send E r"
  shows "map erase_duration (collect E n ck m) = map erase_duration (collect E n ck' m)"
proof -
  have "scrape E n (now ck) m = scrape E n (now ck') m"
    by (rule scrape_now_irrelevant[OF assms])
  then show ?thesis
    by (simp add: collect_eq erase_duration_def MustNewConstMetric_def)
qed

text \<open>The two-metric pass, evaluated.\<close>

lemma nas2_fields [simp]:
  "nasInstanceIdentifier nas2 = ''nas1''" "region nas2 = ''jp-east-1''"
  "nc_metrics nas2 = [FreeStorageSpace, UsedStorageSpace]"
  by (simp_all add: nas2_def)

lemma Seconds_stub [simp]: "Seconds (stub send) d = real_of_int d / 1000000000"
  by (simp add: stub_def)

lemma prepare_stub2:
  "prepare (stub send) nas2 local_now m = prepare (stub send) nas1 local_now m"
  by (simp add: prepare_def nas2_def)

lemma metric_names [simp]:
  "Name FreeStorageSpace = ''FreeStorageSpace''" "Name UsedStorageSpace = ''UsedStorageSpace''"
  by (simp_all add: FreeStorageSpace_def UsedStorageSpace_def metrics_def)

lemma scrape_free:
  "send r0 = Inr three_points \<Longrightarrow>
   r0 = \<lparr>Operation_Name = ''GetMetricStatistics'', Metadata_APIVersion = ''N2016-02-24'',
          Config = client nas1,
          Params = \<lparr>Dimensions = [\<lparr>DimName = Some ''NASInstanceIdentifier'',
                                    DimValue = Some ''nas1''\<rparr>],
                    MetricName = Some ''FreeStorageSpace''\<rparr>,
          BufferBody = ''StartTime=2019-12-31 23:59:30&EndTime=2020-01-01 00:02:30''\<rparr> \<Longrightarrow>
   scrape (stub send) nas2 local_now FreeStorageSpace = ([free_value], None)"
  using scrape_response[of "stub send" nas2 local_now FreeStorageSpace r0 three_points]
    prepare_stub[of send FreeStorageSpace]
  by (simp add: prepare_stub2 three_points_def scan_Cons free_value_def)

lemma emissions_send_one:
  "emissions (stub send_one) nas2 clocks =
     [[free_value, duration_sample ''FreeStorageSpace'' (1 / 20),
       success_sample ''FreeStorageSpace'' 1],
      [duration_sample ''UsedStorageSpace'' (1 / 100), success_sample ''UsedStorageSpace'' 0]]"
proof -
  have 1: "scrape (stub send_one) nas2 local_now FreeStorageSpace = ([free_value], None)"
    by (rule scrape_free) (simp_all add: send_one_def)
  have 2: "scrape (stub send_one) nas2 local_now UsedStorageSpace = ([], Some (SendFailed ''connection refused''))"
    using prepare_stub[of send_one UsedStorageSpace]
    by (simp add: scrape_def prepare_stub2 send_one_def)
  have "[0..<2] = [0, Suc 0]" by (simp add: upt_rec)
  then show ?thesis
    by (simp add: emissions_def collect_eq clocks_def 1 2 duration_sample_def success_sample_def)
qed

lemma emissions_send_one_rest_empty:
  "emissions (stub send_one_rest_empty) nas2 clocks =
     [[free_value, duration_sample ''FreeStorageSpace'' (1 / 20),
       success_sample ''FreeStorageSpace'' 1],
      [duration_sample ''UsedStorageSpace'' (1 / 100), success_sample ''UsedStorageSpace'' 0]]"
proof -
  have 1: "scrape (stub send_one_rest_empty) nas2 local_now FreeStorageSpace = ([free_value], None)"
    by (rule scrape_free) (simp_all add: send_one_rest_empty_def)
  have 2: "scrape (stub send_one_rest_empty) nas2 local_now UsedStorageSpace = ([], Some FetchedNoDatapoints)"
    using prepare_stub[of send_one_rest_empty UsedStorageSpace]
    by (simp add: scrape_def prepare_stub2 send_one_rest_empty_def)
  have "[0..<2] = [0, Suc 0]" by (simp add: upt_rec)
  then show ?thesis
    by (simp add: emissions_def collect_eq clocks_def 1 2 duration_sample_def success_sample_def)
qed

lemma interleaving_channel2:
  "interleaving
     [[free_value, duration_sample ''FreeStorageSpace'' (1 / 20),
       success_sample ''FreeStorageSpace'' 1],
      [duration_sample ''UsedStorageSpace'' (1 / 100), success_sample ''UsedStorageSpace'' 0]]
     channel2"
proof -
  have "[0..<2] = [0, Suc 0]" by (simp add: upt_rec)
  then show ?thesis
    by (simp add: channel2_def interleaving.simps)
qed

lemma Collect_channel2:
  "NASCollector_Collect (stub send_one) nas2 clocks channel2"
  "NASCollector_Collect (stub send_one_rest_empty) nas2 clocks channel2"
  by (simp_all add: NASCollector_Collect_def emissions_send_one emissions_send_one_rest_empty interleaving_channel2)

lemma distinct_metrics_nas2: "distinct_metrics (nc_metrics nas2)"
  by (simp add: distinct_metrics_def FreeStorageSpace_def UsedStorageSpace_def metrics_def
      NewDesc_def BuildFQName_def namespace_def scrapeDurationDesc_def scrapeSuccessDesc_def)

section \<open>What a pass sends\<close>

text \<open>
  C4. In every output of a pass of the collector that \<open>NewNASCollector\<close> builds, the
  label values of the duration samples are, up to their order on the channel, the names
  of the eleven metrics, each once, and so are the label values of the success samples:
  whatever the fetches return, no metric is left out and none is reported twice.
\<close>

theorem Collect_reports_every_metric:
  assumes "NASCollector_Collect E (NewNASCollector ident key secret reg) cks out"
  shows "mset (map labelValues (filter (\<lambda>s. desc s = scrapeDurationDesc) out)) =
           mset (map (\<lambda>m. [Name m]) metrics)
       \<and> mset (map labelValues (filter (\<lambda>s. desc s = scrapeSuccessDesc) out)) =
           mset (map (\<lambda>m. [Name m]) metrics)
       \<and> distinct (map Name metrics) \<and> length metrics = 11"
proof -
  let ?n = "NewNASCollector ident key secret reg"
  have ms: "nc_metrics ?n = metrics" by (simp add: NewNASCollector_def)
  have dm: "distinct_metrics metrics" by (rule distinct_metrics_metrics)
  have nd: "\<And>m. m \<in> set metrics \<Longrightarrow> Desc m \<noteq> scrapeDurationDesc \<and> Desc m \<noteq> scrapeSuccessDesc"
    using dm unfolding distinct_metrics_def by (metis image_eqI set_map)
  have il: "interleaving (emissions E ?n cks) out" using assms by (simp add: NASCollector_Collect_def)
  have "map labelValues (filter (\<lambda>s. desc s = scrapeDurationDesc) (concat (emissions E ?n cks))) =
      map (\<lambda>m. [Name m]) (nc_metrics ?n)"
    by (rule emissions_labels) (simp add: ms nd collect_durations)
  then have 1: "mset (map labelValues (filter (\<lambda>s. desc s = scrapeDurationDesc) out)) =
           mset (map (\<lambda>m. [Name m]) metrics)"
    using mset_map_filter_interleaving[OF il] ms by metis
  have "map labelValues (filter (\<lambda>s. desc s = scrapeSuccessDesc) (concat (emissions E ?n cks))) =
      map (\<lambda>m. [Name m]) (nc_metrics ?n)"
    by (rule emissions_labels) (simp add: ms nd collect_successes)
  then have 2: "mset (map labelValues (filter (\<lambda>s. desc s = scrapeSuccessDesc) out)) =
           mset (map (\<lambda>m. [Name m]) metrics)"
    using mset_map_filter_interleaving[OF il] ms by metis
  have 3: "distinct (map Name metrics)" using dm by (simp add: distinct_metrics_def)
  have 4: "length metrics = 11" by (simp add: metrics_def)
  show ?thesis using 1 2 3 4 by blast
qed

theorem Collect_reports_every_metric_witness:
  "mset (map labelValues (filter (\<lambda>s. desc s = scrapeDurationDesc)
       (concat (emissions (stub send_one) nas1 clocks)))) =
     mset (map (\<lambda>m. [Name m]) metrics)
   \<and> mset (map labelValues (filter (\<lambda>s. desc s = scrapeSuccessDesc)
       (concat (emissions (stub send_one) nas1 clocks)))) =
     mset (map (\<lambda>m. [Name m]) metrics)
   \<and> distinct (map Name metrics) \<and> length metrics = 11"
  using Collect_reports_every_metric[OF Collect_sequential[of "stub send_one" nas1 clocks,
      unfolded nas1_def]]
  by (simp add: nas1_def)

text \<open>
  C5. For the metric of goroutine \<open>i\<close>: when its \<open>scrape\<close> returns no error, the channel
  carries one success sample of the metric, with the value 1, and one value sample of
  the metric, labelled with the instance identifier and the region; when \<open>scrape\<close>
  returns an error, the success sample has the value 0 and the channel carries no value
  sample of the metric.
\<close>

theorem Collect_success_flag:
  assumes "NASCollector_Collect E n cks out" and "distinct_metrics (nc_metrics n)"
    and "i < length (nc_metrics n)" and "m = nc_metrics n ! i"
  shows "(snd (scrape E n (now (cks i)) m) = None \<longrightarrow>
            map val (filter (is_success_of m) out) = [1] \<and>
            (\<exists>v. filter (is_value_of m) out =
               [MustNewConstMetric (Desc m) GaugeValue v [nasInstanceIdentifier n, region n]]))
       \<and> (snd (scrape E n (now (cks i)) m) \<noteq> None \<longrightarrow>
            map val (filter (is_success_of m) out) = [0] \<and>
            filter (is_value_of m) out = [])"
proof -
  have proj: "filter (belongs_to m) out = collect E n (cks i) m"
    using Collect_project[OF assms(1,2,3)] assms(4) by simp
  have "Desc m \<in> set (map Desc (nc_metrics n))" using assms(3,4) by simp
  then have nd: "Desc m \<noteq> scrapeDurationDesc" "Desc m \<noteq> scrapeSuccessDesc"
    using assms(2) unfolding distinct_metrics_def by metis+
  show ?thesis
    using scrape_cases[of E n "now (cks i)" m] nd meta_descs_differ
    by (subst (1 2) filter_success_of, subst (1 2) filter_value_of)
       (auto simp: proj collect_eq is_success_of_def is_value_of_def)
qed

theorem Collect_success_flag_witness:
  "map val (filter (is_success_of FreeStorageSpace) channel2) = [1]
   \<and> (\<exists>v. filter (is_value_of FreeStorageSpace) channel2 =
         [MustNewConstMetric (Desc FreeStorageSpace) GaugeValue v [''nas1'', ''jp-east-1'']])
   \<and> snd (scrape (stub send_one) nas2 (now (clocks 0)) FreeStorageSpace) = None
   \<and> map val (filter (is_success_of UsedStorageSpace) channel2) = [0]
   \<and> filter (is_value_of UsedStorageSpace) channel2 = []
   \<and> snd (scrape (stub send_one) nas2 (now (clocks 1)) UsedStorageSpace) =
       Some (SendFailed ''connection refused'')"
proof -
  have 1: "scrape (stub send_one) nas2 local_now FreeStorageSpace = ([free_value], None)"
    by (rule scrape_free) (simp_all add: send_one_def)
  have 2: "scrape (stub send_one) nas2 local_now UsedStorageSpace =
      ([], Some (SendFailed ''connection refused''))"
    using prepare_stub[of send_one UsedStorageSpace]
    by (simp add: scrape_def prepare_stub2 send_one_def)
  show ?thesis
    using Collect_success_flag[OF Collect_channel2(1) distinct_metrics_nas2, of 0 FreeStorageSpace]
      Collect_success_flag[OF Collect_channel2(1) distinct_metrics_nas2, of 1 UsedStorageSpace]
    by (simp add: 1 2 clocks_def)
qed

text \<open>
  C10. On the channel, the samples of the metric of goroutine \<open>i\<close> are, in this order:
  its value sample when \<open>scrape\<close> returned no error and nothing otherwise, then its
  duration sample, then its success sample. Samples of other metrics may lie between them.
\<close>

theorem Collect_order_within_metric:
  assumes "NASCollector_Collect E n cks out" and "distinct_metrics (nc_metrics n)"
    and "i < length (nc_metrics n)" and "m = nc_metrics n ! i"
  shows "\<exists>sent. filter (belongs_to m) out =
           sent @
           [MustNewConstMetric scrapeDurationDesc GaugeValue (Seconds E (elapsed (cks i))) [Name m],
            MustNewConstMetric scrapeSuccessDesc GaugeValue
              (if snd (scrape E n (now (cks i)) m) \<noteq> None then 0 else 1) [Name m]]
         \<and> (if snd (scrape E n (now (cks i)) m) = None
            then \<exists>v. sent = [MustNewConstMetric (Desc m) GaugeValue v
                               [nasInstanceIdentifier n, region n]]
            else sent = [])"
proof -
  have proj: "filter (belongs_to m) out = collect E n (cks i) m"
    using Collect_project[OF assms(1,2,3)] assms(4) by simp
  show ?thesis
    unfolding proj collect_eq
    using scrape_cases[of E n "now (cks i)" m]
    by (intro exI[of _ "fst (scrape E n (now (cks i)) m)"]) auto
qed

theorem Collect_order_within_metric_witness:
  "\<exists>sent. filter (belongs_to FreeStorageSpace) channel2 =
      sent @
      [MustNewConstMetric scrapeDurationDesc GaugeValue (1 / 20) [''FreeStorageSpace''],
       MustNewConstMetric scrapeSuccessDesc GaugeValue 1 [''FreeStorageSpace'']]
    \<and> (\<exists>v. sent = [MustNewConstMetric (Desc FreeStorageSpace) GaugeValue v
                      [''nas1'', ''jp-east-1'']])"
proof -
  have 1: "scrape (stub send_one) nas2 local_now FreeStorageSpace = ([free_value], None)"
    by (rule scrape_free) (simp_all add: send_one_def)
  show ?thesis
    using Collect_order_within_metric[OF Collect_channel2(1) distinct_metrics_nas2,
        of 0 FreeStorageSpace]
    by (simp add: 1 clocks_def)
qed

section \<open>Metrics do not affect each other\<close>

text \<open>
  C6. When the response to the query of goroutine \<open>i\<close> has no data point, its \<open>scrape\<close>
  returns the error \<open>fetched no datapoints\<close> and sends nothing, the success sample of
  its metric has the value 0, and what the channel carries besides the samples of that
  metric is an output of the pass over the other metrics alone, each with its own clock.
\<close>

theorem empty_response_isolated:
  assumes "NASCollector_Collect E n cks out" and "distinct_metrics (nc_metrics n)"
    and "i < length (nc_metrics n)" and "m = nc_metrics n ! i"
    and "prepare E n (now (cks i)) m = Inr req" and "Send E req = Inr []"
  shows "scrape E n (now (cks i)) m = ([], Some FetchedNoDatapoints)
       \<and> kind_of FetchedNoDatapoints = NoData
       \<and> map val (filter (is_success_of m) out) = [0]
       \<and> NASCollector_Collect E (n\<lparr>nc_metrics := take i (nc_metrics n) @ drop (Suc i) (nc_metrics n)\<rparr>)
           (\<lambda>j. cks (if j < i then j else Suc j))
           (filter (\<lambda>s. \<not> belongs_to m s) out)"
proof -
  have sc: "scrape E n (now (cks i)) m = ([], Some FetchedNoDatapoints)"
    using scrape_response[OF assms(5,6)] by simp
  have proj: "filter (belongs_to m) out = collect E n (cks i) m"
    using Collect_project[OF assms(1,2,3)] assms(4) by simp
  have "Desc m \<in> set (map Desc (nc_metrics n))" using assms(3,4) by simp
  then have nd: "Desc m \<noteq> scrapeDurationDesc" "Desc m \<noteq> scrapeSuccessDesc"
    using assms(2) unfolding distinct_metrics_def by metis+
  have su: "map val (filter (is_success_of m) out) = [0]"
    using meta_descs_differ
    by (subst filter_success_of) (simp add: proj collect_eq sc is_success_of_def)
  have "interleaving (take i (emissions E n cks) @ drop (Suc i) (emissions E n cks))
          (filter (\<lambda>s. \<not> belongs_to m s) out)"
    using assms(1,3) emissions_selects[OF assms(2,3), of E cks] unfolding assms(4)
    by (intro interleaving_remove) (simp_all add: NASCollector_Collect_def)
  then have "NASCollector_Collect E (n\<lparr>nc_metrics := take i (nc_metrics n) @ drop (Suc i) (nc_metrics n)\<rparr>)
           (\<lambda>j. cks (if j < i then j else Suc j))
           (filter (\<lambda>s. \<not> belongs_to m s) out)"
    by (simp add: NASCollector_Collect_def emissions_remove[OF assms(3)])
  then show ?thesis using sc su by simp
qed

theorem empty_response_isolated_witness:
  "scrape (stub send_one_rest_empty) nas2 (now (clocks 1)) UsedStorageSpace =
     ([], Some FetchedNoDatapoints)
   \<and> map val (filter (is_success_of UsedStorageSpace) channel2) = [0]
   \<and> NASCollector_Collect (stub send_one_rest_empty) (nas2\<lparr>nc_metrics := [FreeStorageSpace]\<rparr>)
       (\<lambda>j. clocks (if j < 1 then j else Suc j))
       (filter (\<lambda>s. \<not> belongs_to UsedStorageSpace s) channel2)"
  using empty_response_isolated[OF Collect_channel2(2) distinct_metrics_nas2,
      of 1 UsedStorageSpace, unfolded clocks_def Clock.simps prepare_stub2, OF _ _ prepare_stub]
  by (simp add: send_one_rest_empty_def clocks_def)



section \<open>Passes repeated\<close>

text \<open>
  C8. The claim: with a fetch layer that always returns the same data points, every pass
  has the same output, values included. The value of a duration sample is the time that
  \<open>collect\<close> measured: two passes with the same answers, the second one slower, differ
  in their duration samples.
\<close>

theorem repeated_pass_identical_counterexample:
  "NASCollector_Collect (stub send_one) nas2 clocks channel2
   \<and> NASCollector_Collect (stub send_one) nas2 slower_clocks (concat (emissions (stub send_one) nas2 slower_clocks))
   \<and> duration_sample ''FreeStorageSpace'' (1 / 20) \<in> set channel2
   \<and> duration_sample ''FreeStorageSpace'' (1 / 20) \<notin>
       set (concat (emissions (stub send_one) nas2 slower_clocks))"
proof -
  have eq: "scrape (stub send_one) nas2 (Add local_now (60 * Second)) FreeStorageSpace =
            scrape (stub send_one) nas2 local_now FreeStorageSpace"
           "scrape (stub send_one) nas2 (Add local_now (60 * Second)) UsedStorageSpace =
            scrape (stub send_one) nas2 local_now UsedStorageSpace"
    by (rule scrape_now_irrelevant, simp add: send_one_def SetBufferBody_def)+
  have 1: "scrape (stub send_one) nas2 local_now FreeStorageSpace = ([free_value], None)"
    by (rule scrape_free) (simp_all add: send_one_def)
  have 2: "scrape (stub send_one) nas2 local_now UsedStorageSpace =
      ([], Some (SendFailed ''connection refused''))"
    using prepare_stub[of send_one UsedStorageSpace]
    by (simp add: scrape_def prepare_stub2 send_one_def)
  have u: "[0..<2] = [0, Suc 0]" by (simp add: upt_rec)
  have "emissions (stub send_one) nas2 slower_clocks =
     [[free_value, duration_sample ''FreeStorageSpace'' (7 / 100),
       success_sample ''FreeStorageSpace'' 1],
      [duration_sample ''UsedStorageSpace'' (1 / 50), success_sample ''UsedStorageSpace'' 0]]"
    using u
    by (simp add: emissions_def collect_eq slower_clocks_def eq 1 2 duration_sample_def
        success_sample_def)
  then have "duration_sample ''FreeStorageSpace'' (1 / 20) \<notin>
       set (concat (emissions (stub send_one) nas2 slower_clocks))"
    by (simp add: duration_sample_def success_sample_def free_value_def MustNewConstMetric_def
        scrapeDurationDesc_def scrapeSuccessDesc_def NewDesc_def)
  then show ?thesis
    using Collect_channel2(1) Collect_sequential[of "stub send_one" nas2 slower_clocks]
    by (simp add: channel2_def)
qed

text \<open>
  C8, as amended: with an environment whose answer to a request does not depend on the
  body of the request, and so not on the time of the query, two passes of one collector
  carry the same samples on the channel, each as often, once the values of the duration
  samples are erased. A pass reads the collector and leaves nothing behind: its output
  is determined by the collector, the environment and the clocks.
\<close>

theorem passes_agree_up_to_durations:
  assumes "NASCollector_Collect E n cks out" and "NASCollector_Collect E n cks' out'"
    and "\<forall>r b. Send E (SetBufferBody r b) = Send E r"
  shows "mset (map erase_duration out') = mset (map erase_duration out)"
proof -
  have "map (map erase_duration) (emissions E n cks') = map (map erase_duration) (emissions E n cks)"
    by (simp add: emissions_def collect_erase_duration[OF assms(3), of n "cks' _" _ "cks _"])
  then have "map erase_duration (concat (emissions E n cks')) =
             map erase_duration (concat (emissions E n cks))"
    by (simp add: map_concat)
  moreover have "mset out = mset (concat (emissions E n cks))"
    "mset out' = mset (concat (emissions E n cks'))"
    using assms(1,2) by (simp_all add: NASCollector_Collect_def interleaving_mset)
  ultimately show ?thesis by (metis mset_map)
qed

theorem passes_agree_up_to_durations_witness:
  "mset (map erase_duration (concat (emissions (stub send_one) nas2 slower_clocks))) =
   mset (map erase_duration channel2)"
  using passes_agree_up_to_durations[OF Collect_channel2(1)
      Collect_sequential[of "stub send_one" nas2 slower_clocks]]
  by (simp add: send_one_def SetBufferBody_def)

end
